theory Spec2Isabelle
  imports Main
begin

section \<open>The inventory file manager of \<^verbatim>\<open>lib/filesystem.py\<close>\<close>

text \<open>
  The module locates, loads, backs up and saves one JSON inventory file. Its functions are
  embedded here as HOL functions over an explicit file system. What the Python runtime
  and its library contribute (\<^verbatim>\<open>os.path\<close>, \<^verbatim>\<open>open\<close>, \<^verbatim>\<open>tarfile\<close>, \<^verbatim>\<open>json\<close>,
  \<^verbatim>\<open>datetime\<close>, \<^verbatim>\<open>copy\<close>) is modelled in the first subsections, from the behaviour of
  CPython 3 on POSIX; the functions of the module follow, in the order of the source.
  Calls of the module's logger have no effect on any value or file and are left out.
\<close>

subsection \<open>Path strings: \<^verbatim>\<open>os.path\<close> on POSIX\<close>

type_synonym path = string

definition INVENTORY_FILENAME :: string where
  "INVENTORY_FILENAME = ''openstack_inventory.json''"

text \<open>\<^verbatim>\<open>os.path.join(a, b)\<close>: an absolute \<open>b\<close> replaces \<open>a\<close>; otherwise one separator
  stands between the two unless \<open>a\<close> is empty or already ends with one.\<close>

definition os_path_join :: "path \<Rightarrow> path \<Rightarrow> path" where
  "os_path_join a b =
     (if take 1 b = ''/'' then b
      else if a = [] \<or> last a = CHR ''/'' then a @ b
      else a @ ''/'' @ b)"

text \<open>\<^verbatim>\<open>os.path.basename(p)\<close>: what follows the last separator.\<close>

definition os_path_basename :: "path \<Rightarrow> path" where
  "os_path_basename p = rev (takeWhile (\<lambda>c. c \<noteq> CHR ''/'') (rev p))"

definition rstrip_sep :: "path \<Rightarrow> path" where
  "rstrip_sep p = rev (dropWhile (\<lambda>c. c = CHR ''/'') (rev p))"

text \<open>\<^verbatim>\<open>os.path.dirname(p)\<close>: what precedes the basename, without its trailing
  separators unless it consists of separators only.\<close>

definition os_path_dirname :: "path \<Rightarrow> path" where
  "os_path_dirname p =
     (let head = rev (dropWhile (\<lambda>c. c \<noteq> CHR ''/'') (rev p))
      in if head \<noteq> [] \<and> rstrip_sep head \<noteq> [] then rstrip_sep head else head)"

text \<open>
  \<^verbatim>\<open>os.path.expanduser(p)\<close>: a path that does not start with a tilde is returned as it
  is. Otherwise the user name between the tilde and the first separator is looked up: the
  empty name is the current user (the variable \<^verbatim>\<open>HOME\<close>, else the password database), any
  other name is looked up in the password database. An unknown user leaves the path
  unchanged. The lookup belongs to the process environment and is the parameter \<open>home\<close>.
\<close>

definition os_path_expanduser :: "(string \<Rightarrow> path option) \<Rightarrow> path \<Rightarrow> path" where
  "os_path_expanduser home p =
     (if take 1 p \<noteq> ''~'' then p
      else
        let name = takeWhile (\<lambda>c. c \<noteq> CHR ''/'') (tl p);
            rest = dropWhile (\<lambda>c. c \<noteq> CHR ''/'') (tl p)
        in case home name of
             None \<Rightarrow> p
           | Some userhome \<Rightarrow>
               (let r = rstrip_sep userhome @ rest in if r = [] then ''/'' else r))"

subsection \<open>The file system\<close>

text \<open>
  A file system maps a path string to what is found there: a directory, a regular file
  with its bytes, or a regular file that holds a tar archive, given by its members in
  order. A member is the name it was archived under and a snapshot of what was archived.
  Every file-system object is named by one path string (no links, no two spellings of one
  path), and permissions and the space left on the device are not part of the state.
\<close>

datatype node =
    Dir
  | File string
  | TarFile "(string \<times> node) list"

type_synonym tar_member = "string \<times> node"

type_synonym filesystem = "path \<Rightarrow> node option"

datatype errno = ENOENT | EISDIR | ENOTDIR

text \<open>
  The exceptions that leave a function of the module. \<open>SystemExit_no_file ps\<close> is
  \<^verbatim>\<open>SystemExit('No file found at: {}'.format(ps))\<close>: it carries the list that the message
  formats. \<open>TypeError\<close> is what \<^verbatim>\<open>os.path\<close> raises on an argument that is not a string.
  \<open>ValueError\<close> (with its subclass \<^verbatim>\<open>JSONDecodeError\<close>) carries the decoder's message.
  \<open>ReadError\<close> is \<^verbatim>\<open>tarfile.ReadError\<close>, \<open>OSError\<close> a failed system call. A function that
  raises returns \<open>Inl\<close> of the exception; the file system a raising call leaves behind is
  not described.
\<close>

datatype error =
    SystemExit_no_file "path list"
  | TypeError
  | ValueError string
  | ReadError
  | OSError errno

text \<open>\<^verbatim>\<open>os.path.isfile(p)\<close>: something exists at \<open>p\<close> and it is a regular file.\<close>

definition os_path_isfile :: "filesystem \<Rightarrow> path \<Rightarrow> bool" where
  "os_path_isfile fs p = (case fs p of Some (File _) \<Rightarrow> True | Some (TarFile _) \<Rightarrow> True | _ \<Rightarrow> False)"

text \<open>Creating a file needs its directory: the empty directory name is the current
  directory, which exists.\<close>

definition parent_check :: "filesystem \<Rightarrow> path \<Rightarrow> errno option" where
  "parent_check fs p =
     (let d = os_path_dirname p
      in if d = [] then None
         else case fs d of
                Some Dir \<Rightarrow> None
              | Some _ \<Rightarrow> Some ENOTDIR
              | None \<Rightarrow> Some ENOENT)"

subsection \<open>The process environment\<close>

record datetime =
  year :: nat
  month :: nat
  day :: nat
  hour :: nat
  minute :: nat
  second :: nat

datatype json =
    JNull
  | JBool bool
  | JInt int
  | JFloat string
  | JStr string
  | JArr "json list"
  | JObj "(string \<times> json) list"

text \<open>
  What a call reads from outside the file system: the home directories that
  \<^verbatim>\<open>expanduser\<close> consults, the decoder \<^verbatim>\<open>json.loads\<close> (library code, a function from
  the bytes read to the decoded value or the exception it raises), the bytes that a read
  of a tar archive returns, and the clock: the value of \<^verbatim>\<open>datetime.datetime.utcnow()\<close>
  at the moment of the call. A number with a fraction or an exponent is kept as its text.
\<close>

record env =
  user_home :: "string \<Rightarrow> path option"
  json_loads :: "string \<Rightarrow> error + json"
  tar_image :: "tar_member list \<Rightarrow> string"
  utcnow :: datetime

subsection \<open>\<^verbatim>\<open>_get_search_paths\<close> and \<^verbatim>\<open>file_find\<close>\<close>

text \<open>\<open>preferred_path\<close> and \<open>suffix\<close> are optional arguments: \<open>None\<close> is Python's
  \<^verbatim>\<open>None\<close>. The test \<^verbatim>\<open>if suffix:\<close> fails on \<^verbatim>\<open>None\<close> and on the empty string.\<close>

definition get_search_paths :: "env \<Rightarrow> path option \<Rightarrow> string option \<Rightarrow> path list" where
  "get_search_paths e preferred_path suffix =
     (let search_paths = [os_path_join ''/etc'' ''openstack_deploy''];
          search_paths =
            (case preferred_path of
               None \<Rightarrow> search_paths
             | Some p \<Rightarrow> os_path_expanduser (user_home e) p # search_paths)
      in case suffix of
           None \<Rightarrow> search_paths
         | Some s \<Rightarrow> if s \<noteq> [] then map (\<lambda>p. os_path_join p s) search_paths else search_paths)"

text \<open>The \<^verbatim>\<open>for\<close> loop of \<^verbatim>\<open>file_find\<close>: the first candidate that is a regular file is
  returned at once; \<open>None\<close> when the loop runs to its end and the \<^verbatim>\<open>else\<close> branch is taken.\<close>

fun first_file :: "filesystem \<Rightarrow> path list \<Rightarrow> path option" where
  "first_file fs [] = None"
| "first_file fs (file_candidate # rest) =
     (if os_path_isfile fs file_candidate then Some file_candidate else first_file fs rest)"

text \<open>The result of \<^verbatim>\<open>file_find\<close> is a path or Python's \<^verbatim>\<open>False\<close>; \<open>None\<close> stands for
  \<^verbatim>\<open>False\<close>. The exit is raised when \<open>pass_exception\<close> is \<^verbatim>\<open>False\<close>, as the code has it.\<close>

definition file_find :: "env \<Rightarrow> filesystem \<Rightarrow> string \<Rightarrow> path option \<Rightarrow> bool \<Rightarrow> error + path option" where
  "file_find e fs filename preferred_path pass_exception =
     (let search_paths = get_search_paths e preferred_path (Some filename)
      in case first_file fs search_paths of
           Some file_candidate \<Rightarrow> Inr (Some file_candidate)
         | None \<Rightarrow>
             if \<not> pass_exception then Inl (SystemExit_no_file search_paths)
             else Inr None)"

subsection \<open>Opening, reading and writing files\<close>

text \<open>\<^verbatim>\<open>open(p, 'rb')\<close> followed by \<^verbatim>\<open>read()\<close>: the bytes of a regular file.\<close>

definition read_bytes :: "env \<Rightarrow> filesystem \<Rightarrow> path \<Rightarrow> error + string" where
  "read_bytes e fs p =
     (case fs p of
        None \<Rightarrow> Inl (OSError ENOENT)
      | Some Dir \<Rightarrow> Inl (OSError EISDIR)
      | Some (File bytes) \<Rightarrow> Inr bytes
      | Some (TarFile members) \<Rightarrow> Inr (tar_image e members))"

text \<open>\<^verbatim>\<open>open(p, 'wb')\<close> followed by \<^verbatim>\<open>write(data)\<close>: an existing regular file is
  truncated and a missing one is created in its directory; what is there afterwards is
  the data written and nothing else.\<close>

definition write_bytes :: "filesystem \<Rightarrow> path \<Rightarrow> string \<Rightarrow> error + filesystem" where
  "write_bytes fs p data =
     (case fs p of
        Some Dir \<Rightarrow> Inl (OSError EISDIR)
      | Some _ \<Rightarrow> Inr (fs(p \<mapsto> File data))
      | None \<Rightarrow>
          (case parent_check fs p of
             Some en \<Rightarrow> Inl (OSError en)
           | None \<Rightarrow> Inr (fs(p \<mapsto> File data))))"

subsection \<open>\<^verbatim>\<open>tarfile\<close> in append mode\<close>

text \<open>
  \<^verbatim>\<open>tarfile.open(name, 'a')\<close> reads the members of an existing archive, refuses a
  regular file that is no archive, and creates an archive without members where nothing
  exists. The result is the list of members the open archive starts with.
\<close>

definition tarfile_open_append :: "filesystem \<Rightarrow> path \<Rightarrow> error + tar_member list" where
  "tarfile_open_append fs name =
     (case fs name of
        Some (TarFile members) \<Rightarrow> Inr members
      | Some (File _) \<Rightarrow> Inl ReadError
      | Some Dir \<Rightarrow> Inl (OSError EISDIR)
      | None \<Rightarrow>
          (case parent_check fs name of
             Some en \<Rightarrow> Inl (OSError en)
           | None \<Rightarrow> Inr []))"

text \<open>
  \<^verbatim>\<open>tar.add(name, arcname=arcname)\<close> appends one member that holds what is found at
  \<open>name\<close>, under the name \<open>arcname\<close>. The library skips the archive itself, and fails
  when nothing exists at \<open>name\<close>. For a directory the member recorded here is the
  directory alone: the members for what it contains are not listed.
\<close>

definition tar_add :: "filesystem \<Rightarrow> path \<Rightarrow> tar_member list \<Rightarrow> path \<Rightarrow> string \<Rightarrow> error + tar_member list" where
  "tar_add fs archive members name arcname =
     (if name = archive then Inr members
      else case fs name of
             None \<Rightarrow> Inl (OSError ENOENT)
           | Some n \<Rightarrow> Inr (members @ [(arcname, n)]))"

subsection \<open>\<^verbatim>\<open>_get_backup_name\<close> and \<^verbatim>\<open>_make_backup\<close>\<close>

definition digit :: "nat \<Rightarrow> char" where
  "digit d = ''0123456789'' ! (d mod 10)"

text \<open>The last \<open>k\<close> decimal digits of \<open>n\<close>, with leading zeros.\<close>

fun zero_padded :: "nat \<Rightarrow> nat \<Rightarrow> string" where
  "zero_padded 0 n = []"
| "zero_padded (Suc k) n = zero_padded k (n div 10) @ [digit n]"

text \<open>\<^verbatim>\<open>strftime("%Y%m%d_%H%M%S")\<close>, for the years from 1000 to 9999, where \<^verbatim>\<open>%Y\<close> has four
  digits on every platform.\<close>

definition strftime_Ymd_HMS :: "datetime \<Rightarrow> string" where
  "strftime_Ymd_HMS t =
     zero_padded 4 (year t) @ zero_padded 2 (month t) @ zero_padded 2 (day t) @ ''_'' @
     zero_padded 2 (hour t) @ zero_padded 2 (minute t) @ zero_padded 2 (second t)"

definition get_backup_name :: "env \<Rightarrow> string \<Rightarrow> string" where
  "get_backup_name e basename =
     (let utctime = utcnow e;
          utctime = strftime_Ymd_HMS utctime
      in basename @ ''-'' @ utctime @ ''.json'')"

text \<open>
  Both arguments are Python values that need not be strings: \<open>backup_path\<close> is the
  caller's \<open>preferred_path\<close>, which may be \<^verbatim>\<open>None\<close>, and \<open>source_file_path\<close> is a result of
  \<^verbatim>\<open>file_find\<close>, where \<open>None\<close> stands for \<^verbatim>\<open>False\<close>. \<^verbatim>\<open>os.path.join\<close> and
  \<^verbatim>\<open>os.path.basename\<close> raise on them (\<^verbatim>\<open>TypeError\<close> in Python 3, \<^verbatim>\<open>AttributeError\<close> in
  Python 2). Leaving the \<^verbatim>\<open>with\<close> block closes the archive, which then holds the members
  the block has built.
\<close>

definition make_backup :: "env \<Rightarrow> filesystem \<Rightarrow> path option \<Rightarrow> path option \<Rightarrow> error + filesystem" where
  "make_backup e fs backup_path source_file_path =
     (case backup_path of
        None \<Rightarrow> Inl TypeError
      | Some bp \<Rightarrow>
          (let inventory_backup_file = os_path_join bp ''backup_openstack_inventory.tar''
           in case tarfile_open_append fs inventory_backup_file of
                Inl err \<Rightarrow> Inl err
              | Inr members \<Rightarrow>
                  (case source_file_path of
                     None \<Rightarrow> Inl TypeError
                   | Some src \<Rightarrow>
                       (let basename = os_path_basename src;
                            backup_name = get_backup_name e basename
                        in case tar_add fs inventory_backup_file members src backup_name of
                             Inl err \<Rightarrow> Inl err
                           | Inr members' \<Rightarrow>
                               Inr (fs(inventory_backup_file \<mapsto> TarFile members'))))))"

subsection \<open>Python values with identity\<close>

text \<open>
  A caller can mutate the list or dictionary it gets back, so these objects carry their
  identity: the number in \<open>PList\<close> and \<open>PDict\<close> is the object's \<^verbatim>\<open>id\<close>. Two nodes with
  the same identity are the same object, reached twice. \<^verbatim>\<open>None\<close>, booleans, numbers and
  strings are immutable and have no identity here. The values are finite trees: an object
  that contains itself is not a value of this type, and no JSON document decodes to one.
  A dictionary is the list of its items in insertion order.
\<close>

datatype pyval =
    PNone
  | PBool bool
  | PInt int
  | PFloat string
  | PStr string
  | PList nat "pyval list"
  | PDict nat "(string \<times> pyval) list"

text \<open>The interpreter state of a call: the files, and the next identity that a new
  object gets. Every object allocated so far has a smaller one.\<close>

record world =
  files :: filesystem
  next_id :: nat

text \<open>The decoder builds new objects for the arrays and objects of the document.\<close>

fun py_of_json :: "json \<Rightarrow> nat \<Rightarrow> pyval \<times> nat"
  and py_of_jsons :: "json list \<Rightarrow> nat \<Rightarrow> pyval list \<times> nat"
  and py_of_items :: "(string \<times> json) list \<Rightarrow> nat \<Rightarrow> (string \<times> pyval) list \<times> nat" where
  "py_of_json JNull n = (PNone, n)"
| "py_of_json (JBool b) n = (PBool b, n)"
| "py_of_json (JInt i) n = (PInt i, n)"
| "py_of_json (JFloat x) n = (PFloat x, n)"
| "py_of_json (JStr s) n = (PStr s, n)"
| "py_of_json (JArr js) n = (let (vs, n') = py_of_jsons js (Suc n) in (PList n vs, n'))"
| "py_of_json (JObj kjs) n = (let (kvs, n') = py_of_items kjs (Suc n) in (PDict n kvs, n'))"
| "py_of_jsons [] n = ([], n)"
| "py_of_jsons (j # js) n =
     (let (v, n1) = py_of_json j n; (vs, n2) = py_of_jsons js n1 in (v # vs, n2))"
| "py_of_items [] n = ([], n)"
| "py_of_items ((k, j) # kjs) n =
     (let (v, n1) = py_of_json j n; (kvs, n2) = py_of_items kjs n1 in ((k, v) # kvs, n2))"

text \<open>The content of a value without the identities: what \<^verbatim>\<open>==\<close> compares.\<close>

fun erase :: "pyval \<Rightarrow> json"
  and erase_list :: "pyval list \<Rightarrow> json list"
  and erase_items :: "(string \<times> pyval) list \<Rightarrow> (string \<times> json) list" where
  "erase PNone = JNull"
| "erase (PBool b) = JBool b"
| "erase (PInt i) = JInt i"
| "erase (PFloat x) = JFloat x"
| "erase (PStr s) = JStr s"
| "erase (PList a vs) = JArr (erase_list vs)"
| "erase (PDict a kvs) = JObj (erase_items kvs)"
| "erase_list [] = []"
| "erase_list (v # vs) = erase v # erase_list vs"
| "erase_items [] = []"
| "erase_items ((k, v) # kvs) = (k, erase v) # erase_items kvs"

text \<open>The identities of the objects that can be reached from a value.\<close>

fun ids :: "pyval \<Rightarrow> nat set"
  and ids_list :: "pyval list \<Rightarrow> nat set"
  and ids_items :: "(string \<times> pyval) list \<Rightarrow> nat set" where
  "ids (PList a vs) = insert a (ids_list vs)"
| "ids (PDict a kvs) = insert a (ids_items kvs)"
| "ids _ = {}"
| "ids_list [] = {}"
| "ids_list (v # vs) = ids v \<union> ids_list vs"
| "ids_items [] = {}"
| "ids_items ((k, v) # kvs) = ids v \<union> ids_items kvs"

text \<open>The objects (lists and dictionaries) inside a value, each with its identity.\<close>

fun objects :: "pyval \<Rightarrow> (nat \<times> pyval) list"
  and objects_list :: "pyval list \<Rightarrow> (nat \<times> pyval) list"
  and objects_items :: "(string \<times> pyval) list \<Rightarrow> (nat \<times> pyval) list" where
  "objects (PList a vs) = (a, PList a vs) # objects_list vs"
| "objects (PDict a kvs) = (a, PDict a kvs) # objects_items kvs"
| "objects _ = []"
| "objects_list [] = []"
| "objects_list (v # vs) = objects v @ objects_list vs"
| "objects_items [] = []"
| "objects_items ((k, v) # kvs) = objects v @ objects_items kvs"

text \<open>A value is coherent when one identity never stands for two different contents.\<close>

definition coherent :: "pyval \<Rightarrow> bool" where
  "coherent v =
     list_all (\<lambda>(a, x). list_all (\<lambda>(b, y). a \<noteq> b \<or> erase x = erase y) (objects v)) (objects v)"

text \<open>
  An in-place mutation of the object \<open>a\<close>: wherever the object is reached, its new state
  \<open>new\<close> is seen.
\<close>

fun mutate :: "nat \<Rightarrow> pyval \<Rightarrow> pyval \<Rightarrow> pyval"
  and mutate_list :: "nat \<Rightarrow> pyval \<Rightarrow> pyval list \<Rightarrow> pyval list"
  and mutate_items :: "nat \<Rightarrow> pyval \<Rightarrow> (string \<times> pyval) list \<Rightarrow> (string \<times> pyval) list" where
  "mutate a new (PList b vs) = (if a = b then new else PList b (mutate_list a new vs))"
| "mutate a new (PDict b kvs) = (if a = b then new else PDict b (mutate_items a new kvs))"
| "mutate a new v = v"
| "mutate_list a new [] = []"
| "mutate_list a new (v # vs) = mutate a new v # mutate_list a new vs"
| "mutate_items a new [] = []"
| "mutate_items a new ((k, v) # kvs) = (k, mutate a new v) # mutate_items a new kvs"

subsection \<open>\<^verbatim>\<open>copy.deepcopy\<close>\<close>

text \<open>
  The copy of an immutable value is the value itself. A list or dictionary is copied
  once: the memo maps the identity of an object already copied to its copy, and an object
  met again is answered from the memo. Otherwise a new object is allocated, its elements
  are copied in order, and the memo records it. The state threaded through is the next
  free identity and the memo.
\<close>

type_synonym copy_state = "nat \<times> (nat \<times> pyval) list"

fun deepcopy_memo :: "pyval \<Rightarrow> copy_state \<Rightarrow> pyval \<times> copy_state"
  and deepcopy_list :: "pyval list \<Rightarrow> copy_state \<Rightarrow> pyval list \<times> copy_state"
  and deepcopy_items :: "(string \<times> pyval) list \<Rightarrow> copy_state \<Rightarrow> (string \<times> pyval) list \<times> copy_state" where
  "deepcopy_memo (PList a vs) (n, memo) =
     (case map_of memo a of
        Some y \<Rightarrow> (y, (n, memo))
      | None \<Rightarrow>
          (let (vs', (n', memo')) = deepcopy_list vs (Suc n, memo)
           in (PList n vs', (n', (a, PList n vs') # memo'))))"
| "deepcopy_memo (PDict a kvs) (n, memo) =
     (case map_of memo a of
        Some y \<Rightarrow> (y, (n, memo))
      | None \<Rightarrow>
          (let (kvs', (n', memo')) = deepcopy_items kvs (Suc n, memo)
           in (PDict n kvs', (n', (a, PDict n kvs') # memo'))))"
| "deepcopy_memo v st = (v, st)"
| "deepcopy_list [] st = ([], st)"
| "deepcopy_list (v # vs) st =
     (let (v', st1) = deepcopy_memo v st; (vs', st2) = deepcopy_list vs st1 in (v' # vs', st2))"
| "deepcopy_items [] st = ([], st)"
| "deepcopy_items ((k, v) # kvs) st =
     (let (v', st1) = deepcopy_memo v st; (kvs', st2) = deepcopy_items kvs st1
      in ((k, v') # kvs', st2))"

text \<open>\<^verbatim>\<open>copy.deepcopy(x)\<close> starts with an empty memo.\<close>

definition deepcopy :: "pyval \<Rightarrow> nat \<Rightarrow> pyval \<times> nat" where
  "deepcopy x n = (let (y, (n', memo)) = deepcopy_memo x (n, []) in (y, n'))"

subsection \<open>\<^verbatim>\<open>load_from_json\<close>, \<^verbatim>\<open>load_inventory\<close> and \<^verbatim>\<open>save_inventory\<close>\<close>

text \<open>The pair returned is the decoded value or \<^verbatim>\<open>False\<close>, and what \<^verbatim>\<open>file_find\<close>
  returned: a path or \<^verbatim>\<open>False\<close> (\<open>None\<close> here).\<close>

definition load_from_json ::
  "env \<Rightarrow> world \<Rightarrow> string \<Rightarrow> path option \<Rightarrow> bool \<Rightarrow> error + ((pyval \<times> path option) \<times> world)" where
  "load_from_json e w filename preferred_path pass_exception =
     (case file_find e (files w) filename preferred_path pass_exception of
        Inl err \<Rightarrow> Inl err
      | Inr None \<Rightarrow> Inr ((PBool False, None), w)
      | Inr (Some target_file) \<Rightarrow>
          (case read_bytes e (files w) target_file of
             Inl err \<Rightarrow> Inl err
           | Inr bytes \<Rightarrow>
               (case json_loads e bytes of
                  Inl err \<Rightarrow> Inl err
                | Inr j \<Rightarrow>
                    (let (dictionary, n') = py_of_json j (next_id w)
                     in Inr ((dictionary, Some target_file), w\<lparr>next_id := n'\<rparr>)))))"

text \<open>\<open>default_inv\<close> is any Python value; the default of the parameter is \<^verbatim>\<open>None\<close>. The
  test \<^verbatim>\<open>inventory is not False\<close> compares with the one object \<^verbatim>\<open>False\<close>.\<close>

definition load_inventory :: "env \<Rightarrow> world \<Rightarrow> path option \<Rightarrow> pyval \<Rightarrow> error + (pyval \<times> world)" where
  "load_inventory e w preferred_path default_inv =
     (case load_from_json e w INVENTORY_FILENAME preferred_path True of
        Inl err \<Rightarrow> Inl err
      | Inr ((inventory, file_loaded), w1) \<Rightarrow>
          if inventory \<noteq> PBool False then
            (case make_backup e (files w1) preferred_path file_loaded of
               Inl err \<Rightarrow> Inl err
             | Inr fs' \<Rightarrow> Inr (inventory, w1\<lparr>files := fs'\<rparr>))
          else
            (let (inventory, n') = deepcopy default_inv (next_id w1)
             in Inr (inventory, w1\<lparr>next_id := n'\<rparr>)))"

text \<open>
  \<open>file_find\<close> is called with its defaults: no preferred path, and \<open>pass_exception\<close>
  \<^verbatim>\<open>False\<close>. It then never returns \<^verbatim>\<open>False\<close>; were \<^verbatim>\<open>open\<close> handed \<^verbatim>\<open>False\<close>, it would
  not get a path, which is the \<open>None\<close> branch below.
\<close>

definition save_inventory :: "env \<Rightarrow> filesystem \<Rightarrow> string \<Rightarrow> path \<Rightarrow> error + filesystem" where
  "save_inventory e fs inventory_json save_path =
     (case (if INVENTORY_FILENAME = save_path then file_find e fs save_path None False
            else Inr (Some (os_path_join save_path INVENTORY_FILENAME))) of
        Inl err \<Rightarrow> Inl err
      | Inr None \<Rightarrow> Inl TypeError
      | Inr (Some inventory_file) \<Rightarrow> write_bytes fs inventory_file inventory_json)"

subsection \<open>A concrete environment and file systems for the examples\<close>

text \<open>
  The examples run in an environment whose current user has the home directory
  \<^verbatim>\<open>/root\<close> and whose clock shows 31 January 2024, 23:59:07 UTC. Its decoder is
  \<^verbatim>\<open>json.loads\<close> restricted to the four documents the examples read: the empty object,
  the array of the number one, the literal \<^verbatim>\<open>false\<close>, and a lone opening brace, which
  \<^verbatim>\<open>json.loads\<close> rejects with the message given.
\<close>

definition example_loads :: "string \<Rightarrow> error + json" where
  "example_loads bytes =
     (if bytes = ''{}'' then Inr (JObj [])
      else if bytes = ''[1]'' then Inr (JArr [JInt 1])
      else if bytes = ''false'' then Inr (JBool False)
      else Inl (ValueError
        ''Expecting property name enclosed in double quotes: line 1 column 2 (char 1)''))"

definition example_env :: env where
  "example_env =
     \<lparr>user_home = (\<lambda>u. if u = [] then Some ''/root'' else None),
      json_loads = example_loads,
      tar_image = (\<lambda>ms. concat (map fst ms)),
      utcnow = \<lparr>year = 2024, month = 1, day = 31, hour = 23, minute = 59, second = 7\<rparr>\<rparr>"

text \<open>A deployment host before the first run: the directories exist, no inventory does.\<close>

definition fs_fresh :: filesystem where
  "fs_fresh = [''/etc'' \<mapsto> Dir, ''/etc/openstack_deploy'' \<mapsto> Dir, ''/opt/osa'' \<mapsto> Dir]"

text \<open>The same host with an inventory in the standard directory only.\<close>

definition fs_standard :: "string \<Rightarrow> filesystem" where
  "fs_standard bytes = fs_fresh(''/etc/openstack_deploy/openstack_inventory.json'' \<mapsto> File bytes)"

text \<open>The same host with an inventory in the preferred directory \<^verbatim>\<open>/opt/osa\<close> and another
  one in the standard directory.\<close>

definition fs_both :: "string \<Rightarrow> filesystem" where
  "fs_both bytes =
     (fs_standard ''[1]'')(''/opt/osa/openstack_inventory.json'' \<mapsto> File bytes)"

text \<open>A host whose inventory is kept under the home directory of the current user.\<close>

definition fs_home :: "string \<Rightarrow> filesystem" where
  "fs_home bytes =
     fs_fresh(''/root'' \<mapsto> Dir, ''/root/osa'' \<mapsto> Dir,
       ''/root/osa/openstack_inventory.json'' \<mapsto> File bytes)"

section \<open>Properties\<close>

subsection \<open>Facts about the path functions and the search loop\<close>

lemma standard_directory: "os_path_join ''/etc'' ''openstack_deploy'' = ''/etc/openstack_deploy''"
  by (simp add: os_path_join_def)

lemma get_search_paths_preferred:
  "filename \<noteq> [] \<Longrightarrow>
   get_search_paths e (Some p) (Some filename) =
     [os_path_join (os_path_expanduser (user_home e) p) filename,
      os_path_join ''/etc/openstack_deploy'' filename]"
  by (simp add: get_search_paths_def standard_directory)

lemma get_search_paths_standard_only:
  "filename \<noteq> [] \<Longrightarrow>
   get_search_paths e None (Some filename) = [os_path_join ''/etc/openstack_deploy'' filename]"
  by (simp add: get_search_paths_def standard_directory)

lemma first_file_None_iff:
  "first_file fs ps = None \<longleftrightarrow> (\<forall>c \<in> set ps. \<not> os_path_isfile fs c)"
  by (induction ps) auto

lemma first_file_SomeD:
  "first_file fs ps = Some t \<Longrightarrow> t \<in> set ps \<and> os_path_isfile fs t"
  by (induction ps) (auto split: if_splits)

lemma isfile_cases:
  "os_path_isfile fs p \<longleftrightarrow> (\<exists>bytes. fs p = Some (File bytes)) \<or> (\<exists>ms. fs p = Some (TarFile ms))"
  by (auto simp: os_path_isfile_def split: option.splits node.splits)

lemma file_find_found:
  "first_file fs (get_search_paths e preferred_path (Some filename)) = Some t \<Longrightarrow>
   file_find e fs filename preferred_path pass_exception = Inr (Some t)"
  by (simp add: file_find_def)

lemma file_find_strict_never_False:
  "file_find e fs filename preferred_path False \<noteq> Inr None"
  by (simp add: file_find_def Let_def split: option.splits)

subsection \<open>Path resolution\<close>

text \<open>
  Claim C3. When no candidate of the search list is a regular file (the file name is
  absent from the preferred directory, if one is given, and from the standard directory),
  \<open>file_find\<close> called with \<open>pass_exception\<close> true returns \<^verbatim>\<open>False\<close> and raises nothing,
  and called with \<open>pass_exception\<close> false it raises the exit whose message formats the
  whole list of the paths searched.
\<close>

theorem file_find_absent:
  assumes "\<forall>c \<in> set (get_search_paths e preferred_path (Some filename)). \<not> os_path_isfile fs c"
  shows "file_find e fs filename preferred_path True = Inr None \<and>
         file_find e fs filename preferred_path False =
           Inl (SystemExit_no_file (get_search_paths e preferred_path (Some filename)))"
proof -
  from assms have "first_file fs (get_search_paths e preferred_path (Some filename)) = None"
    by (simp add: first_file_None_iff)
  then show ?thesis
    by (simp add: file_find_def)
qed

theorem file_find_absent_witness:
  "file_find example_env fs_fresh ''user_variables.yml'' (Some ''/opt/osa'') True = Inr None \<and>
   file_find example_env fs_fresh ''user_variables.yml'' (Some ''/opt/osa'') False =
     Inl (SystemExit_no_file
       [''/opt/osa/user_variables.yml'', ''/etc/openstack_deploy/user_variables.yml''])"
proof -
  have paths: "get_search_paths example_env (Some ''/opt/osa'') (Some ''user_variables.yml'') =
      [''/opt/osa/user_variables.yml'', ''/etc/openstack_deploy/user_variables.yml'']"
    by (simp add: get_search_paths_def os_path_join_def os_path_expanduser_def)
  have absent: "\<forall>c \<in> set (get_search_paths example_env (Some ''/opt/osa'')
      (Some ''user_variables.yml'')). \<not> os_path_isfile fs_fresh c"
    unfolding paths by (simp add: os_path_isfile_def fs_fresh_def)
  show ?thesis
    using file_find_absent [OF absent] unfolding paths .
qed

text \<open>
  Claim C4. The candidates are the preferred directory and then the standard directory,
  each joined with the file name. When the candidate in the preferred directory is a
  regular file, \<open>file_find\<close> returns it in either mode, whatever is found in the
  standard directory; the result is the standard candidate only if the two candidates
  are the same path.
\<close>

theorem file_find_preferred_wins:
  assumes "filename \<noteq> []"
    and "os_path_isfile fs (os_path_join (os_path_expanduser (user_home e) p) filename)"
  shows "get_search_paths e (Some p) (Some filename) =
           [os_path_join (os_path_expanduser (user_home e) p) filename,
            os_path_join ''/etc/openstack_deploy'' filename] \<and>
         file_find e fs filename (Some p) pass_exception =
           Inr (Some (os_path_join (os_path_expanduser (user_home e) p) filename)) \<and>
         (os_path_join (os_path_expanduser (user_home e) p) filename \<noteq>
            os_path_join ''/etc/openstack_deploy'' filename \<longrightarrow>
          file_find e fs filename (Some p) pass_exception \<noteq>
            Inr (Some (os_path_join ''/etc/openstack_deploy'' filename)))"
  using assms by (simp add: file_find_def get_search_paths_preferred)

theorem file_find_preferred_wins_witness:
  "file_find example_env (fs_both ''{}'') ''openstack_inventory.json'' (Some ''/opt/osa'') False =
     Inr (Some ''/opt/osa/openstack_inventory.json'') \<and>
   os_path_isfile (fs_both ''{}'') ''/etc/openstack_deploy/openstack_inventory.json''"
proof -
  have cand: "os_path_join (os_path_expanduser (user_home example_env) ''/opt/osa'')
      ''openstack_inventory.json'' = ''/opt/osa/openstack_inventory.json''"
    by (simp add: os_path_join_def os_path_expanduser_def)
  have there: "os_path_isfile (fs_both ''{}'') (os_path_join
      (os_path_expanduser (user_home example_env) ''/opt/osa'') ''openstack_inventory.json'')"
    unfolding cand by (simp add: os_path_isfile_def fs_both_def)
  have std: "os_path_isfile (fs_both ''{}'') ''/etc/openstack_deploy/openstack_inventory.json''"
    by (simp add: os_path_isfile_def fs_both_def fs_standard_def)
  have name: "''openstack_inventory.json'' \<noteq> []" by simp
  from file_find_preferred_wins [OF name there, of False] std show ?thesis
    unfolding cand by simp
qed

subsection \<open>Decoding builds the document\<close>

lemma erase_py_of_json_pair:
  "py_of_json j n = (v, n') \<Longrightarrow> erase v = j"
  "py_of_jsons js n = (vs, n') \<Longrightarrow> erase_list vs = js"
  "py_of_items kjs n = (kvs, n') \<Longrightarrow> erase_items kvs = kjs"
  by (induction j n and js n and kjs n arbitrary: v n' and vs n' and kvs n'
      rule: py_of_json_py_of_jsons_py_of_items.induct)
    (auto split: prod.splits)

lemma erase_py_of_json: "erase (fst (py_of_json j n)) = j"
  using erase_py_of_json_pair(1) [of j n] by (metis prod.collapse)

lemma load_from_json_found:
  assumes "first_file (files w) (get_search_paths e preferred_path (Some filename)) = Some t"
    and "read_bytes e (files w) t = Inr bytes"
  shows "load_from_json e w filename preferred_path pass_exception =
           (case json_loads e bytes of
              Inl err \<Rightarrow> Inl err
            | Inr j \<Rightarrow> Inr ((fst (py_of_json j (next_id w)), Some t),
                           w\<lparr>next_id := snd (py_of_json j (next_id w))\<rparr>))"
  using assms
  by (simp add: load_from_json_def file_find_found split_beta split: sum.splits)

lemma write_bytes_result:
  "write_bytes fs p data = Inr fs' \<Longrightarrow> fs' = fs(p \<mapsto> File data)"
  by (auto simp: write_bytes_def split: option.splits node.splits)

lemma write_bytes_over_file:
  "os_path_isfile fs p \<Longrightarrow> write_bytes fs p data = Inr (fs(p \<mapsto> File data))"
  by (auto simp: write_bytes_def isfile_cases)

lemma inventory_name_nonempty: "INVENTORY_FILENAME \<noteq> []"
  by (simp add: INVENTORY_FILENAME_def)

lemma standard_inventory:
  "os_path_join ''/etc/openstack_deploy'' INVENTORY_FILENAME =
     ''/etc/openstack_deploy/openstack_inventory.json''"
  by (simp add: os_path_join_def INVENTORY_FILENAME_def)

subsection \<open>Loading JSON\<close>

text \<open>
  Claim C5. When the file that the lookup resolves is read and the decoder raises on its
  bytes, \<open>load_from_json\<close> raises that same exception, in either mode, and so does
  \<open>load_inventory\<close> for the inventory file: neither returns a value, so neither the
  \<^verbatim>\<open>False\<close> of a missing file nor a copy of the default is returned.
\<close>

theorem malformed_json_propagates:
  assumes "first_file (files w) (get_search_paths e preferred_path (Some filename)) = Some t"
    and "read_bytes e (files w) t = Inr bytes"
    and "json_loads e bytes = Inl err"
  shows "load_from_json e w filename preferred_path pass_exception = Inl err \<and>
         (filename = INVENTORY_FILENAME \<longrightarrow>
            load_inventory e w preferred_path default_inv = Inl err)"
  using assms by (auto simp: load_from_json_found load_inventory_def)

theorem malformed_json_propagates_witness:
  "load_from_json example_env \<lparr>files = fs_standard ''{'', next_id = 0\<rparr>
     ''openstack_inventory.json'' (Some ''/opt/osa'') True =
     Inl (ValueError
       ''Expecting property name enclosed in double quotes: line 1 column 2 (char 1)'') \<and>
   load_inventory example_env \<lparr>files = fs_standard ''{'', next_id = 0\<rparr> (Some ''/opt/osa'')
     (PDict 0 []) =
     Inl (ValueError
       ''Expecting property name enclosed in double quotes: line 1 column 2 (char 1)'')"
proof -
  let ?w = "\<lparr>files = fs_standard ''{'', next_id = 0\<rparr>"
  have found: "first_file (files ?w)
      (get_search_paths example_env (Some ''/opt/osa'') (Some ''openstack_inventory.json'')) =
      Some ''/etc/openstack_deploy/openstack_inventory.json''"
    by (simp add: get_search_paths_def os_path_join_def os_path_expanduser_def
        os_path_isfile_def fs_standard_def fs_fresh_def)
  have bytes: "read_bytes example_env (files ?w)
      ''/etc/openstack_deploy/openstack_inventory.json'' = Inr ''{''"
    by (simp add: read_bytes_def fs_standard_def)
  have bad: "json_loads example_env ''{'' = Inl (ValueError
      ''Expecting property name enclosed in double quotes: line 1 column 2 (char 1)'')"
    by (simp add: example_env_def example_loads_def)
  from malformed_json_propagates [OF found bytes bad, of True "PDict 0 []"]
  show ?thesis by (simp add: INVENTORY_FILENAME_def)
qed

text \<open>
  Claim C6. Called with \<open>pass_exception\<close> true where no candidate is a regular file,
  \<open>load_from_json\<close> returns the pair of \<^verbatim>\<open>False\<close> and \<^verbatim>\<open>False\<close> (the second is
  \<open>None\<close> here) and changes nothing. Where the lookup resolves a file whose bytes decode,
  it returns, in either mode, a value whose content is the decoded document together
  with the path of the file that was read, and leaves the files as they were.
\<close>

theorem load_from_json_pair:
  "((\<forall>c \<in> set (get_search_paths e preferred_path (Some filename)).
       \<not> os_path_isfile (files w) c) \<longrightarrow>
    load_from_json e w filename preferred_path True = Inr ((PBool False, None), w)) \<and>
   (first_file (files w) (get_search_paths e preferred_path (Some filename)) = Some t \<and>
    read_bytes e (files w) t = Inr bytes \<and> json_loads e bytes = Inr j \<longrightarrow>
    (\<exists>v w'. load_from_json e w filename preferred_path pass_exception =
               Inr ((v, Some t), w') \<and>
            erase v = j \<and> files w' = files w))"
proof (intro conjI impI)
  assume "\<forall>c \<in> set (get_search_paths e preferred_path (Some filename)).
    \<not> os_path_isfile (files w) c"
  then have "first_file (files w) (get_search_paths e preferred_path (Some filename)) = None"
    by (simp add: first_file_None_iff)
  then show "load_from_json e w filename preferred_path True = Inr ((PBool False, None), w)"
    by (simp add: load_from_json_def file_find_def)
next
  assume "first_file (files w) (get_search_paths e preferred_path (Some filename)) = Some t \<and>
    read_bytes e (files w) t = Inr bytes \<and> json_loads e bytes = Inr j"
  then show "\<exists>v w'. load_from_json e w filename preferred_path pass_exception =
      Inr ((v, Some t), w') \<and> erase v = j \<and> files w' = files w"
    by (simp add: load_from_json_found erase_py_of_json)
qed

theorem load_from_json_pair_witness:
  "load_from_json example_env \<lparr>files = fs_fresh, next_id = 0\<rparr> ''openstack_inventory.json''
     (Some ''/opt/osa'') True = Inr ((PBool False, None), \<lparr>files = fs_fresh, next_id = 0\<rparr>) \<and>
   (\<exists>v w'. load_from_json example_env \<lparr>files = fs_both ''{}'', next_id = 0\<rparr>
       ''openstack_inventory.json'' (Some ''/opt/osa'') False =
       Inr ((v, Some ''/opt/osa/openstack_inventory.json''), w') \<and>
     erase v = JObj [] \<and> files w' = files \<lparr>files = fs_both ''{}'', next_id = 0\<rparr>)"
proof -
  let ?w0 = "\<lparr>files = fs_fresh, next_id = 0\<rparr>"
  let ?w1 = "\<lparr>files = fs_both ''{}'', next_id = 0\<rparr>"
  have paths: "get_search_paths example_env (Some ''/opt/osa'')
      (Some ''openstack_inventory.json'') =
      [''/opt/osa/openstack_inventory.json'', ''/etc/openstack_deploy/openstack_inventory.json'']"
    by (simp add: get_search_paths_def os_path_join_def os_path_expanduser_def)
  have absent: "\<forall>c \<in> set (get_search_paths example_env (Some ''/opt/osa'')
      (Some ''openstack_inventory.json'')). \<not> os_path_isfile (files ?w0) c"
    unfolding paths by (simp add: os_path_isfile_def fs_fresh_def)
  have found: "first_file (files ?w1) (get_search_paths example_env (Some ''/opt/osa'')
      (Some ''openstack_inventory.json'')) = Some ''/opt/osa/openstack_inventory.json''"
    unfolding paths by (simp add: os_path_isfile_def fs_both_def)
  have bytes: "read_bytes example_env (files ?w1) ''/opt/osa/openstack_inventory.json'' =
      Inr ''{}''"
    by (simp add: read_bytes_def fs_both_def)
  have good: "json_loads example_env ''{}'' = Inr (JObj [])"
    by (simp add: example_env_def example_loads_def)
  have first: "load_from_json example_env ?w0 ''openstack_inventory.json'' (Some ''/opt/osa'')
      True = Inr ((PBool False, None), ?w0)"
    using load_from_json_pair [of example_env "Some ''/opt/osa''" "''openstack_inventory.json''"
        ?w0] absent by blast
  have second: "\<exists>v w'. load_from_json example_env ?w1 ''openstack_inventory.json''
      (Some ''/opt/osa'') False = Inr ((v, Some ''/opt/osa/openstack_inventory.json''), w') \<and>
      erase v = JObj [] \<and> files w' = files ?w1"
    using load_from_json_pair [of example_env "Some ''/opt/osa''" "''openstack_inventory.json''"
        ?w1 "''/opt/osa/openstack_inventory.json''" "''{}''" "JObj []" False] found bytes good
    by blast
  from first second show ?thesis by blast
qed

subsection \<open>Saving\<close>

lemma save_inventory_literal:
  "save_inventory e fs data INVENTORY_FILENAME =
     (if os_path_isfile fs ''/etc/openstack_deploy/openstack_inventory.json''
      then Inr (fs(''/etc/openstack_deploy/openstack_inventory.json'' \<mapsto> File data))
      else Inl (SystemExit_no_file [''/etc/openstack_deploy/openstack_inventory.json'']))"
  by (simp add: save_inventory_def file_find_def get_search_paths_standard_only
      inventory_name_nonempty standard_inventory write_bytes_over_file)

lemma save_inventory_directory:
  "save_path \<noteq> INVENTORY_FILENAME \<Longrightarrow>
   save_inventory e fs data save_path =
     write_bytes fs (os_path_join save_path INVENTORY_FILENAME) data"
  by (auto simp: save_inventory_def)

text \<open>
  Claim C7, as the code has it. When the save path is literally the inventory file name,
  the target is looked up with no preferred directory and always in the raising mode: the
  inventory in the standard directory is overwritten if it is a regular file, and the
  call exits otherwise. The caller of \<open>save_inventory\<close> has no say in the mode. Any other
  save path is taken as a directory and joined with the inventory file name. A write
  that succeeds leaves exactly the data written at the target and every other path as it
  was.
\<close>

theorem save_inventory_target:
  "(os_path_isfile fs ''/etc/openstack_deploy/openstack_inventory.json'' \<longrightarrow>
      save_inventory e fs data INVENTORY_FILENAME =
        Inr (fs(''/etc/openstack_deploy/openstack_inventory.json'' \<mapsto> File data))) \<and>
   (\<not> os_path_isfile fs ''/etc/openstack_deploy/openstack_inventory.json'' \<longrightarrow>
      save_inventory e fs data INVENTORY_FILENAME =
        Inl (SystemExit_no_file [''/etc/openstack_deploy/openstack_inventory.json''])) \<and>
   (save_path \<noteq> INVENTORY_FILENAME \<longrightarrow>
      save_inventory e fs data save_path =
        write_bytes fs (os_path_join save_path INVENTORY_FILENAME) data \<and>
      (\<forall>fs'. save_inventory e fs data save_path = Inr fs' \<longrightarrow>
         fs' = fs(os_path_join save_path INVENTORY_FILENAME \<mapsto> File data)))"
  by (auto simp: save_inventory_literal save_inventory_directory dest: write_bytes_result)

theorem save_inventory_target_witness:
  "save_inventory example_env (fs_standard ''[1]'') ''{}'' ''openstack_inventory.json'' =
     Inr (fs_standard ''{}'') \<and>
   save_inventory example_env (fs_both ''[1]'') ''{}'' ''/opt/osa'' = Inr (fs_both ''{}'')"
proof -
  have std: "os_path_isfile (fs_standard ''[1]'')
      ''/etc/openstack_deploy/openstack_inventory.json''"
    by (simp add: os_path_isfile_def fs_standard_def)
  have dir: "''/opt/osa'' \<noteq> INVENTORY_FILENAME"
    by (simp add: INVENTORY_FILENAME_def)
  have target: "os_path_join ''/opt/osa'' INVENTORY_FILENAME =
      ''/opt/osa/openstack_inventory.json''"
    by (simp add: os_path_join_def INVENTORY_FILENAME_def)
  have written: "write_bytes (fs_both ''[1]'') ''/opt/osa/openstack_inventory.json'' ''{}'' =
      Inr (fs_both ''{}'')"
    by (simp add: write_bytes_def fs_both_def)
  have first: "save_inventory example_env (fs_standard ''[1]'') ''{}'' INVENTORY_FILENAME =
      Inr (fs_standard ''{}'')"
    using save_inventory_target [of "fs_standard ''[1]''" example_env "''{}''"] std
    by (simp add: fs_standard_def)
  have second: "save_inventory example_env (fs_both ''[1]'') ''{}'' ''/opt/osa'' =
      Inr (fs_both ''{}'')"
    using save_inventory_target [of "fs_both ''[1]''" example_env "''{}''" "''/opt/osa''"] dir
    by (simp add: target written)
  from first second show ?thesis
    by (simp add: INVENTORY_FILENAME_def)
qed

text \<open>
  The claim as the specification words it lets the caller choose the mode of the lookup.
  On a host without an inventory the lookup in the returning mode yields \<^verbatim>\<open>False\<close>, yet
  \<open>save_inventory\<close> exits there: it has no mode to choose.
\<close>

theorem save_inventory_always_strict:
  "file_find example_env fs_fresh INVENTORY_FILENAME None True = Inr None \<and>
   save_inventory example_env fs_fresh ''{}'' INVENTORY_FILENAME =
     Inl (SystemExit_no_file [''/etc/openstack_deploy/openstack_inventory.json''])"
proof -
  have absent: "\<not> os_path_isfile fs_fresh ''/etc/openstack_deploy/openstack_inventory.json''"
    by (simp add: os_path_isfile_def fs_fresh_def)
  then have "file_find example_env fs_fresh INVENTORY_FILENAME None True = Inr None"
    by (simp add: file_find_def get_search_paths_standard_only inventory_name_nonempty
        standard_inventory)
  with absent show ?thesis
    by (simp add: save_inventory_literal)
qed



subsection \<open>Facts about the backup\<close>

lemma last_os_path_join: "b \<noteq> [] \<Longrightarrow> last (os_path_join a b) = last b"
  by (simp add: os_path_join_def)

lemma basename_suffix: "\<exists>d. p = d @ os_path_basename p"
proof -
  have "rev p = takeWhile (\<lambda>c. c \<noteq> CHR ''/'') (rev p) @ dropWhile (\<lambda>c. c \<noteq> CHR ''/'') (rev p)"
    by simp
  then have "p = rev (dropWhile (\<lambda>c. c \<noteq> CHR ''/'') (rev p)) @ os_path_basename p"
    unfolding os_path_basename_def by (metis rev_append rev_rev_ident)
  then show ?thesis ..
qed

lemma inventory_is_not_archive:
  assumes "os_path_basename src = INVENTORY_FILENAME"
  shows "src \<noteq> os_path_join bp ''backup_openstack_inventory.tar''"
proof
  assume eq: "src = os_path_join bp ''backup_openstack_inventory.tar''"
  obtain d where "src = d @ INVENTORY_FILENAME"
    using basename_suffix [of src] assms by auto
  then have "last src = CHR ''n''"
    by (simp add: INVENTORY_FILENAME_def)
  moreover have "last src = CHR ''r''"
    unfolding eq by (simp add: last_os_path_join)
  ultimately show False by simp
qed

lemma basename_join_inventory:
  "os_path_basename (os_path_join d INVENTORY_FILENAME) = INVENTORY_FILENAME"
  by (cases d rule: rev_cases)
    (simp_all add: os_path_basename_def os_path_join_def INVENTORY_FILENAME_def)

lemma search_paths_are_inventories:
  "t \<in> set (get_search_paths e preferred_path (Some INVENTORY_FILENAME)) \<Longrightarrow>
   os_path_basename t = INVENTORY_FILENAME"
  by (cases preferred_path)
    (auto simp: get_search_paths_def inventory_name_nonempty basename_join_inventory)

lemma make_backup_appends:
  assumes "tarfile_open_append fs (os_path_join bp ''backup_openstack_inventory.tar'') = Inr ms"
    and "src \<noteq> os_path_join bp ''backup_openstack_inventory.tar''"
    and "fs src = Some n"
  shows "make_backup e fs (Some bp) (Some src) =
           Inr (fs(os_path_join bp ''backup_openstack_inventory.tar'' \<mapsto>
             TarFile (ms @ [(get_backup_name e (os_path_basename src), n)])))"
  using assms by (simp add: make_backup_def tar_add_def)

lemma make_backup_succeeds:
  assumes "make_backup e fs backup_path (Some src) = Inr fs'"
  shows "\<exists>bp ms. backup_path = Some bp \<and>
           tarfile_open_append fs (os_path_join bp ''backup_openstack_inventory.tar'') = Inr ms \<and>
           (src = os_path_join bp ''backup_openstack_inventory.tar'' \<or> (\<exists>n. fs src = Some n))"
  using assms
  by (auto simp: make_backup_def tar_add_def Let_def split: option.splits sum.splits if_splits)

lemma make_backup_without_path: "make_backup e fs None src = Inl TypeError"
  by (simp add: make_backup_def)

lemma length_zero_padded: "length (zero_padded k n) = k"
  by (induction k n rule: zero_padded.induct) simp_all

lemma strftime_shape:
  "length (strftime_Ymd_HMS t) = 15 \<and> strftime_Ymd_HMS t ! 8 = CHR ''_''"
  by (simp add: strftime_Ymd_HMS_def length_zero_padded nth_append)

lemma get_backup_name_eq:
  "get_backup_name e basename = basename @ ''-'' @ strftime_Ymd_HMS (utcnow e) @ ''.json''"
  by (simp add: get_backup_name_def)

lemma zero_padded_2: "zero_padded 2 n = [digit (n div 10), digit n]"
proof -
  have "zero_padded (Suc (Suc 0)) n = [digit (n div 10), digit n]" by simp
  then show ?thesis by (simp only: numeral_2_eq_2)
qed

lemma zero_padded_4:
  "zero_padded 4 n = [digit (n div 10 div 10 div 10), digit (n div 10 div 10), digit (n div 10), digit n]"
proof -
  have "zero_padded (Suc (Suc (Suc (Suc 0)))) n =
      [digit (n div 10 div 10 div 10), digit (n div 10 div 10), digit (n div 10), digit n]"
    by simp
  moreover have "(4::nat) = Suc (Suc (Suc (Suc 0)))" by simp
  ultimately show ?thesis by (simp only:)
qed

lemma example_timestamp: "strftime_Ymd_HMS (utcnow example_env) = ''20240131_235907''"
  by (simp add: example_env_def strftime_Ymd_HMS_def zero_padded_2 zero_padded_4 digit_def)

lemma py_of_json_not_False: "j \<noteq> JBool False \<Longrightarrow> fst (py_of_json j n) \<noteq> PBool False"
  using erase_py_of_json [of j n] by auto

lemma load_inventory_found:
  assumes "first_file (files w) (get_search_paths e preferred_path (Some INVENTORY_FILENAME)) =
      Some t"
    and "read_bytes e (files w) t = Inr bytes"
    and "json_loads e bytes = Inr j"
    and "j \<noteq> JBool False"
  shows "load_inventory e w preferred_path default_inv =
           (case make_backup e (files w) preferred_path (Some t) of
              Inl err \<Rightarrow> Inl err
            | Inr fs' \<Rightarrow> Inr (fst (py_of_json j (next_id w)),
                \<lparr>files = fs', next_id = snd (py_of_json j (next_id w))\<rparr>))"
  using assms
  by (simp add: load_inventory_def load_from_json_found py_of_json_not_False split: sum.splits)


subsection \<open>The backup\<close>

text \<open>
  Claim C9. When \<open>_make_backup\<close> returns for a source that is an inventory file (its
  base name is the inventory file name), the source existed before and is the same
  afterwards, every path other than the archive in the backup directory is as it was, and
  the archive holds the members it had before (none if it did not exist) followed by
  exactly one new member: the snapshot of the source under the backup name.
\<close>

theorem make_backup_frame:
  assumes "make_backup e fs backup_path (Some src) = Inr fs'"
    and "os_path_basename src = INVENTORY_FILENAME"
  shows "\<exists>bp ms n.
           backup_path = Some bp \<and> fs src = Some n \<and> fs' src = Some n \<and>
           (\<forall>p. p \<noteq> os_path_join bp ''backup_openstack_inventory.tar'' \<longrightarrow> fs' p = fs p) \<and>
           tarfile_open_append fs (os_path_join bp ''backup_openstack_inventory.tar'') = Inr ms \<and>
           fs' (os_path_join bp ''backup_openstack_inventory.tar'') =
             Some (TarFile (ms @ [(get_backup_name e (os_path_basename src), n)]))"
proof -
  from make_backup_succeeds [OF assms(1)] obtain bp ms where
    bp: "backup_path = Some bp" and
    ms: "tarfile_open_append fs (os_path_join bp ''backup_openstack_inventory.tar'') = Inr ms" and
    src: "src = os_path_join bp ''backup_openstack_inventory.tar'' \<or> (\<exists>n. fs src = Some n)"
    by blast
  have differ: "src \<noteq> os_path_join bp ''backup_openstack_inventory.tar''"
    by (rule inventory_is_not_archive [OF assms(2)])
  with src obtain n where n: "fs src = Some n" by blast
  have "fs' = fs(os_path_join bp ''backup_openstack_inventory.tar'' \<mapsto>
      TarFile (ms @ [(get_backup_name e (os_path_basename src), n)]))"
    using assms(1) make_backup_appends [OF ms differ n, of e] bp by simp
  with bp n ms differ show ?thesis by simp
qed

theorem make_backup_frame_witness:
  "\<exists>bp ms n.
     Some ''/opt/osa'' = Some bp \<and>
     fs_both ''{}'' ''/opt/osa/openstack_inventory.json'' = Some n \<and>
     ((fs_both ''{}'')(''/opt/osa/backup_openstack_inventory.tar'' \<mapsto>
        TarFile [(''openstack_inventory.json-20240131_235907.json'', File ''{}'')]))
       ''/opt/osa/openstack_inventory.json'' = Some n \<and>
     tarfile_open_append (fs_both ''{}'') (os_path_join bp ''backup_openstack_inventory.tar'') =
       Inr ms \<and>
     ((fs_both ''{}'')(''/opt/osa/backup_openstack_inventory.tar'' \<mapsto>
        TarFile [(''openstack_inventory.json-20240131_235907.json'', File ''{}'')]))
       (os_path_join bp ''backup_openstack_inventory.tar'') =
       Some (TarFile (ms @ [(get_backup_name example_env
         (os_path_basename ''/opt/osa/openstack_inventory.json''), n)]))"
proof -
  let ?src = "''/opt/osa/openstack_inventory.json''"
  let ?fs' = "(fs_both ''{}'')(''/opt/osa/backup_openstack_inventory.tar'' \<mapsto>
      TarFile [(''openstack_inventory.json-20240131_235907.json'', File ''{}'')])"
  have archive: "os_path_join ''/opt/osa'' ''backup_openstack_inventory.tar'' =
      ''/opt/osa/backup_openstack_inventory.tar''"
    by (simp add: os_path_join_def)
  have parent: "parent_check (fs_both ''{}'') ''/opt/osa/backup_openstack_inventory.tar'' = None"
    by (simp add: parent_check_def os_path_dirname_def rstrip_sep_def fs_both_def
        fs_standard_def fs_fresh_def)
  have opened: "tarfile_open_append (fs_both ''{}'')
      (os_path_join ''/opt/osa'' ''backup_openstack_inventory.tar'') = Inr []"
    unfolding archive using parent
    by (simp add: tarfile_open_append_def fs_both_def fs_standard_def fs_fresh_def)
  have base: "os_path_basename ?src = INVENTORY_FILENAME"
    by (simp add: os_path_basename_def INVENTORY_FILENAME_def)
  have differ: "?src \<noteq> os_path_join ''/opt/osa'' ''backup_openstack_inventory.tar''"
    unfolding archive by simp
  have source: "fs_both ''{}'' ?src = Some (File ''{}'')"
    by (simp add: fs_both_def)
  have name: "get_backup_name example_env (os_path_basename ?src) =
      ''openstack_inventory.json-20240131_235907.json''"
    by (simp add: get_backup_name_eq example_timestamp base INVENTORY_FILENAME_def)
  have run: "make_backup example_env (fs_both ''{}'') (Some ''/opt/osa'') (Some ?src) = Inr ?fs'"
    using make_backup_appends [OF opened differ source, of example_env]
    by (simp add: name archive)
  from make_backup_frame [OF run base] show ?thesis
    by blast
qed

subsection \<open>Loading an inventory that exists\<close>

text \<open>
  A load that can write its backup. Let a preferred path be given, let the lookup resolve
  the inventory file, let its bytes decode to a value other than \<^verbatim>\<open>false\<close>, and let the
  archive \<^verbatim>\<open>backup_openstack_inventory.tar\<close> joined to the preferred path open for
  appending. Then \<open>load_inventory\<close> returns a value whose content is the decoded document,
  and on return the archive holds its previous members followed by exactly one new
  member: the file that was loaded, under its base name, a hyphen, the clock's UTC time
  formatted as \<^verbatim>\<open>%Y%m%d_%H%M%S\<close>, and \<^verbatim>\<open>.json\<close>. Nothing else in the file system changes.
\<close>

lemma load_inventory_backed_up:
  assumes "first_file (files w) (get_search_paths e (Some bp) (Some INVENTORY_FILENAME)) = Some t"
    and "files w t = Some n"
    and "read_bytes e (files w) t = Inr bytes"
    and "json_loads e bytes = Inr j"
    and "j \<noteq> JBool False"
    and "tarfile_open_append (files w) (os_path_join bp ''backup_openstack_inventory.tar'') =
           Inr ms"
  shows "\<exists>v w'. load_inventory e w (Some bp) default_inv = Inr (v, w') \<and>
           erase v = j \<and>
           files w' = (files w)(os_path_join bp ''backup_openstack_inventory.tar'' \<mapsto>
             TarFile (ms @ [(os_path_basename t @ ''-'' @ strftime_Ymd_HMS (utcnow e) @ ''.json'',
                             n)]))"
proof -
  from assms(1) have "os_path_basename t = INVENTORY_FILENAME"
    using first_file_SomeD search_paths_are_inventories by blast
  then have differ: "t \<noteq> os_path_join bp ''backup_openstack_inventory.tar''"
    by (rule inventory_is_not_archive)
  have "make_backup e (files w) (Some bp) (Some t) =
      Inr ((files w)(os_path_join bp ''backup_openstack_inventory.tar'' \<mapsto>
        TarFile (ms @ [(get_backup_name e (os_path_basename t), n)])))"
    by (rule make_backup_appends [OF assms(6) differ assms(2)])
  then show ?thesis
    using load_inventory_found [OF assms(1,3,4,5), of default_inv]
    by (simp add: erase_py_of_json get_backup_name_eq)
qed

lemma load_inventory_backed_up_example:
  "\<exists>v w'. load_inventory example_env \<lparr>files = fs_both ''{}'', next_id = 0\<rparr> (Some ''/opt/osa'')
       PNone = Inr (v, w') \<and>
     erase v = JObj [] \<and>
     files w' = (fs_both ''{}'')(''/opt/osa/backup_openstack_inventory.tar'' \<mapsto>
       TarFile [(''openstack_inventory.json-20240131_235907.json'', File ''{}'')])"
proof -
  let ?w = "\<lparr>files = fs_both ''{}'', next_id = 0\<rparr>"
  let ?t = "''/opt/osa/openstack_inventory.json''"
  have found: "first_file (files ?w)
      (get_search_paths example_env (Some ''/opt/osa'') (Some INVENTORY_FILENAME)) = Some ?t"
    by (simp add: get_search_paths_def os_path_join_def os_path_expanduser_def
        os_path_isfile_def INVENTORY_FILENAME_def fs_both_def)
  have node: "files ?w ?t = Some (File ''{}'')"
    by (simp add: fs_both_def)
  have bytes: "read_bytes example_env (files ?w) ?t = Inr ''{}''"
    by (simp add: read_bytes_def fs_both_def)
  have good: "json_loads example_env ''{}'' = Inr (JObj [])"
    by (simp add: example_env_def example_loads_def)
  have nonfalse: "JObj [] \<noteq> JBool False" by simp
  have archive: "os_path_join ''/opt/osa'' ''backup_openstack_inventory.tar'' =
      ''/opt/osa/backup_openstack_inventory.tar''"
    by (simp add: os_path_join_def)
  have parent: "parent_check (fs_both ''{}'') ''/opt/osa/backup_openstack_inventory.tar'' = None"
    by (simp add: parent_check_def os_path_dirname_def rstrip_sep_def fs_both_def
        fs_standard_def fs_fresh_def)
  have opened: "tarfile_open_append (files ?w)
      (os_path_join ''/opt/osa'' ''backup_openstack_inventory.tar'') = Inr []"
    unfolding archive using parent
    by (simp add: tarfile_open_append_def fs_both_def fs_standard_def fs_fresh_def)
  have base: "os_path_basename ?t = ''openstack_inventory.json''"
    by (simp add: os_path_basename_def)
  from load_inventory_backed_up [OF found node bytes good nonfalse opened, of PNone]
  show ?thesis
    by (simp add: archive base example_timestamp)
qed

text \<open>
  Claim C1. Every call of \<open>load_inventory\<close> that finds an inventory file is to return the
  parsed contents of the file and to add exactly one new member to the backup archive.
  The code does not do so when the preferred path is left out, which is the default of
  the parameter: with a well-formed inventory in the standard directory, the file is
  found and decoded, and then the backup step joins \<^verbatim>\<open>None\<close> with the archive name and
  raises. The call returns nothing and no member is added.
\<close>

theorem no_preferred_path_no_backup:
  "os_path_isfile (fs_standard ''{}'') ''/etc/openstack_deploy/openstack_inventory.json'' \<and>
   json_loads example_env ''{}'' = Inr (JObj []) \<and>
   load_inventory example_env \<lparr>files = fs_standard ''{}'', next_id = 0\<rparr> None PNone =
     Inl TypeError"
proof -
  let ?w = "\<lparr>files = fs_standard ''{}'', next_id = 0\<rparr>"
  have there: "os_path_isfile (fs_standard ''{}'')
      ''/etc/openstack_deploy/openstack_inventory.json''"
    by (simp add: os_path_isfile_def fs_standard_def)
  then have found: "first_file (files ?w)
      (get_search_paths example_env None (Some INVENTORY_FILENAME)) =
      Some ''/etc/openstack_deploy/openstack_inventory.json''"
    by (simp add: get_search_paths_standard_only inventory_name_nonempty standard_inventory)
  have bytes: "read_bytes example_env (files ?w)
      ''/etc/openstack_deploy/openstack_inventory.json'' = Inr ''{}''"
    by (simp add: read_bytes_def fs_standard_def)
  have good: "json_loads example_env ''{}'' = Inr (JObj [])"
    by (simp add: example_env_def example_loads_def)
  have "load_inventory example_env ?w None PNone = Inl TypeError"
    using load_inventory_found [OF found bytes good, of PNone]
    by (simp add: make_backup_without_path)
  with there good show ?thesis by simp
qed

text \<open>
  The backup step is handed the preferred path as the caller wrote it, while the lookup
  expands a leading tilde. An inventory under the home directory is therefore found, and
  the archive is then opened under a directory that is literally named with the tilde:
  the open fails and the call returns nothing.
\<close>

lemma tilde_preferred_path_no_backup:
  "file_find example_env (fs_home ''{}'') INVENTORY_FILENAME (Some ''~/osa'') True =
     Inr (Some ''/root/osa/openstack_inventory.json'') \<and>
   load_inventory example_env \<lparr>files = fs_home ''{}'', next_id = 0\<rparr> (Some ''~/osa'') PNone =
     Inl (OSError ENOENT)"
proof -
  let ?w = "\<lparr>files = fs_home ''{}'', next_id = 0\<rparr>"
  let ?t = "''/root/osa/openstack_inventory.json''"
  have expand: "os_path_expanduser (user_home example_env) ''~/osa'' = ''/root/osa''"
    by (simp add: os_path_expanduser_def rstrip_sep_def example_env_def)
  have found: "first_file (files ?w)
      (get_search_paths example_env (Some ''~/osa'') (Some INVENTORY_FILENAME)) = Some ?t"
    by (simp add: get_search_paths_preferred inventory_name_nonempty expand os_path_join_def
        os_path_isfile_def INVENTORY_FILENAME_def fs_home_def)
  have bytes: "read_bytes example_env (files ?w) ?t = Inr ''{}''"
    by (simp add: read_bytes_def fs_home_def)
  have good: "json_loads example_env ''{}'' = Inr (JObj [])"
    by (simp add: example_env_def example_loads_def)
  have archive: "os_path_join ''~/osa'' ''backup_openstack_inventory.tar'' =
      ''~/osa/backup_openstack_inventory.tar''"
    by (simp add: os_path_join_def)
  have parent: "parent_check (fs_home ''{}'') ''~/osa/backup_openstack_inventory.tar'' =
      Some ENOENT"
    by (simp add: parent_check_def os_path_dirname_def rstrip_sep_def fs_home_def fs_fresh_def)
  have "tarfile_open_append (fs_home ''{}'') ''~/osa/backup_openstack_inventory.tar'' =
      Inl (OSError ENOENT)"
    using parent by (simp add: tarfile_open_append_def fs_home_def fs_fresh_def)
  then have backup: "make_backup example_env (fs_home ''{}'') (Some ''~/osa'') (Some ?t) =
      Inl (OSError ENOENT)"
    by (simp add: make_backup_def archive)
  have "load_inventory example_env ?w (Some ''~/osa'') PNone = Inl (OSError ENOENT)"
    using load_inventory_found [OF found bytes good, of PNone] backup by simp
  moreover have "file_find example_env (fs_home ''{}'') INVENTORY_FILENAME (Some ''~/osa'') True =
      Inr (Some ?t)"
    using file_find_found [OF found, of True] by simp
  ultimately show ?thesis by simp
qed

text \<open>
  Whenever the document that is found decodes to a value other than \<^verbatim>\<open>false\<close>, the
  backup step is run, with the caller's preferred path as its directory.
\<close>

lemma load_inventory_runs_backup:
  assumes "first_file (files w) (get_search_paths e preferred_path (Some INVENTORY_FILENAME)) =
      Some t"
    and "read_bytes e (files w) t = Inr bytes"
    and "json_loads e bytes = Inr j"
    and "j \<noteq> JBool False"
  shows "load_inventory e w preferred_path default_inv =
           (case make_backup e (files w) preferred_path (Some t) of
              Inl err \<Rightarrow> Inl err
            | Inr fs' \<Rightarrow> Inr (fst (py_of_json j (next_id w)),
                \<lparr>files = fs', next_id = snd (py_of_json j (next_id w))\<rparr>)) \<and>
         (preferred_path = None \<longrightarrow>
            load_inventory e w preferred_path default_inv = Inl TypeError) \<and>
         (\<forall>bp v w'. preferred_path = Some bp \<and>
            load_inventory e w preferred_path default_inv = Inr (v, w') \<longrightarrow>
            (\<exists>ms. files w' =
               (files w)(os_path_join bp ''backup_openstack_inventory.tar'' \<mapsto> TarFile ms)))"
proof (intro conjI allI impI)
  show run: "load_inventory e w preferred_path default_inv =
      (case make_backup e (files w) preferred_path (Some t) of
         Inl err \<Rightarrow> Inl err
       | Inr fs' \<Rightarrow> Inr (fst (py_of_json j (next_id w)),
           \<lparr>files = fs', next_id = snd (py_of_json j (next_id w))\<rparr>))"
    by (rule load_inventory_found [OF assms])
  show "load_inventory e w preferred_path default_inv = Inl TypeError"
    if "preferred_path = None"
    using that run by (simp add: make_backup_without_path)
  show "\<exists>ms. files w' =
      (files w)(os_path_join bp ''backup_openstack_inventory.tar'' \<mapsto> TarFile ms)"
    if "preferred_path = Some bp \<and> load_inventory e w preferred_path default_inv = Inr (v, w')"
    for bp v w'
  proof -
    from that run obtain fs' where
      fs': "make_backup e (files w) (Some bp) (Some t) = Inr fs'" and w': "files w' = fs'"
      by (auto split: sum.splits)
    from assms(1) have base: "os_path_basename t = INVENTORY_FILENAME"
      using first_file_SomeD search_paths_are_inventories by blast
    then have differ: "t \<noteq> os_path_join bp ''backup_openstack_inventory.tar''"
      by (rule inventory_is_not_archive)
    from make_backup_succeeds [OF fs'] differ obtain ms n where
      "tarfile_open_append (files w) (os_path_join bp ''backup_openstack_inventory.tar'') = Inr ms"
      and "files w t = Some n"
      by auto
    from make_backup_appends [OF this(1) differ this(2), of e] fs' w' show ?thesis
      by auto
  qed
qed

text \<open>
  Claim C10. Let the lookup resolve an inventory file: a file whose bytes decode to a
  JSON object. The backup step is then run with the caller's preferred path as its
  directory, wherever the file was found. Without a preferred path the join of \<^verbatim>\<open>None\<close>
  with the archive name raises and the call returns nothing. With a preferred path, a
  call that returns has changed the archive \<^verbatim>\<open>backup_openstack_inventory.tar\<close> joined to
  that path and no other path, also when the file that was loaded is the one in the
  standard directory.
\<close>

theorem load_inventory_backup_under_preferred_path:
  assumes "first_file (files w) (get_search_paths e preferred_path (Some INVENTORY_FILENAME)) =
      Some t"
    and "read_bytes e (files w) t = Inr bytes"
    and "json_loads e bytes = Inr (JObj kjs)"
  shows "load_inventory e w preferred_path default_inv =
           (case make_backup e (files w) preferred_path (Some t) of
              Inl err \<Rightarrow> Inl err
            | Inr fs' \<Rightarrow> Inr (fst (py_of_json (JObj kjs) (next_id w)),
                \<lparr>files = fs', next_id = snd (py_of_json (JObj kjs) (next_id w))\<rparr>)) \<and>
         (preferred_path = None \<longrightarrow>
            load_inventory e w preferred_path default_inv = Inl TypeError) \<and>
         (\<forall>bp v w'. preferred_path = Some bp \<and>
            load_inventory e w preferred_path default_inv = Inr (v, w') \<longrightarrow>
            (\<exists>ms. files w' =
               (files w)(os_path_join bp ''backup_openstack_inventory.tar'' \<mapsto> TarFile ms)))"
proof -
  have "JObj kjs \<noteq> JBool False" by simp
  from load_inventory_runs_backup [OF assms this] show ?thesis .
qed

theorem load_inventory_backup_under_preferred_path_witness:
  "load_inventory example_env \<lparr>files = fs_standard ''{}'', next_id = 0\<rparr> None PNone =
     Inl TypeError \<and>
   load_inventory example_env \<lparr>files = fs_standard ''{}'', next_id = 0\<rparr> (Some ''/opt/osa'')
     PNone =
     Inr (PDict 0 [],
       \<lparr>files = (fs_standard ''{}'')(''/opt/osa/backup_openstack_inventory.tar'' \<mapsto>
          TarFile [(''openstack_inventory.json-20240131_235907.json'', File ''{}'')]),
        next_id = 1\<rparr>)"
proof -
  let ?w = "\<lparr>files = fs_standard ''{}'', next_id = 0\<rparr>"
  let ?t = "''/etc/openstack_deploy/openstack_inventory.json''"
  have found0: "first_file (files ?w)
      (get_search_paths example_env None (Some INVENTORY_FILENAME)) = Some ?t"
    by (simp add: get_search_paths_standard_only inventory_name_nonempty standard_inventory
        os_path_isfile_def fs_standard_def)
  have found1: "first_file (files ?w)
      (get_search_paths example_env (Some ''/opt/osa'') (Some INVENTORY_FILENAME)) = Some ?t"
    by (simp add: get_search_paths_def os_path_join_def os_path_expanduser_def
        os_path_isfile_def INVENTORY_FILENAME_def fs_standard_def fs_fresh_def)
  have bytes: "read_bytes example_env (files ?w) ?t = Inr ''{}''"
    by (simp add: read_bytes_def fs_standard_def)
  have good: "json_loads example_env ''{}'' = Inr (JObj [])"
    by (simp add: example_env_def example_loads_def)
  have archive: "os_path_join ''/opt/osa'' ''backup_openstack_inventory.tar'' =
      ''/opt/osa/backup_openstack_inventory.tar''"
    by (simp add: os_path_join_def)
  have parent: "parent_check (fs_standard ''{}'') ''/opt/osa/backup_openstack_inventory.tar'' =
      None"
    by (simp add: parent_check_def os_path_dirname_def rstrip_sep_def fs_standard_def
        fs_fresh_def)
  have opened: "tarfile_open_append (files ?w)
      (os_path_join ''/opt/osa'' ''backup_openstack_inventory.tar'') = Inr []"
    unfolding archive using parent
    by (simp add: tarfile_open_append_def fs_standard_def fs_fresh_def)
  have differ: "?t \<noteq> os_path_join ''/opt/osa'' ''backup_openstack_inventory.tar''"
    unfolding archive by simp
  have node: "files ?w ?t = Some (File ''{}'')"
    by (simp add: fs_standard_def)
  have base: "os_path_basename ?t = ''openstack_inventory.json''"
    by (simp add: os_path_basename_def)
  have backup: "make_backup example_env (fs_standard ''{}'') (Some ''/opt/osa'') (Some ?t) =
      Inr ((fs_standard ''{}'')(''/opt/osa/backup_openstack_inventory.tar'' \<mapsto>
        TarFile [(''openstack_inventory.json-20240131_235907.json'', File ''{}'')]))"
    using make_backup_appends [OF opened differ node, of example_env]
    by (simp add: archive base get_backup_name_eq example_timestamp)
  have first: "load_inventory example_env ?w None PNone = Inl TypeError"
    using load_inventory_backup_under_preferred_path [OF found0 bytes good, of PNone]
    by blast
  have second: "load_inventory example_env ?w (Some ''/opt/osa'') PNone =
      Inr (PDict 0 [],
        \<lparr>files = (fs_standard ''{}'')(''/opt/osa/backup_openstack_inventory.tar'' \<mapsto>
           TarFile [(''openstack_inventory.json-20240131_235907.json'', File ''{}'')]),
         next_id = 1\<rparr>)"
    using load_inventory_backup_under_preferred_path [OF found1 bytes good, of PNone,
        THEN conjunct1]
    by (simp add: backup)
  from first second show ?thesis by simp
qed

text \<open>
  A file that holds the JSON literal \<^verbatim>\<open>false\<close> decodes to the object that
  \<open>load_inventory\<close> takes for "no inventory": no backup is attempted, and the call
  returns a copy of the default.
\<close>

lemma false_document_taken_for_absent:
  "os_path_isfile (fs_standard ''false'') ''/etc/openstack_deploy/openstack_inventory.json'' \<and>
   load_inventory example_env \<lparr>files = fs_standard ''false'', next_id = 1\<rparr> None (PDict 0 []) =
     Inr (PDict 1 [], \<lparr>files = fs_standard ''false'', next_id = 2\<rparr>)"
proof -
  let ?w = "\<lparr>files = fs_standard ''false'', next_id = 1\<rparr>"
  have there: "os_path_isfile (fs_standard ''false'')
      ''/etc/openstack_deploy/openstack_inventory.json''"
    by (simp add: os_path_isfile_def fs_standard_def)
  then have found: "first_file (files ?w)
      (get_search_paths example_env None (Some INVENTORY_FILENAME)) =
      Some ''/etc/openstack_deploy/openstack_inventory.json''"
    by (simp add: get_search_paths_standard_only inventory_name_nonempty standard_inventory)
  have bytes: "read_bytes example_env (files ?w)
      ''/etc/openstack_deploy/openstack_inventory.json'' = Inr ''false''"
    by (simp add: read_bytes_def fs_standard_def)
  have good: "json_loads example_env ''false'' = Inr (JBool False)"
    by (simp add: example_env_def example_loads_def)
  have "load_from_json example_env ?w INVENTORY_FILENAME None True =
      Inr ((PBool False, Some ''/etc/openstack_deploy/openstack_inventory.json''), ?w)"
    using load_from_json_found [OF found bytes, of True] good by simp
  then have "load_inventory example_env ?w None (PDict 0 []) =
      Inr (PDict 1 [], \<lparr>files = fs_standard ''false'', next_id = 2\<rparr>)"
    by (simp add: load_inventory_def deepcopy_def)
  with there show ?thesis by simp
qed

subsection \<open>Facts about \<^verbatim>\<open>copy.deepcopy\<close>\<close>

lemma mutate_elsewhere:
  "a \<notin> ids v \<Longrightarrow> mutate a new v = v"
  "a \<notin> ids_list vs \<Longrightarrow> mutate_list a new vs = vs"
  "a \<notin> ids_items kvs \<Longrightarrow> mutate_items a new kvs = kvs"
  by (induction a new v and a new vs and a new kvs rule: mutate_mutate_list_mutate_items.induct)
    auto

text \<open>The copies are made of new objects: with every identity in the memo's copies
  allocated at or after \<open>n0\<close>, so is every identity in the result.\<close>

lemma deepcopy_memo_fresh:
  "deepcopy_memo v st = (y, st') \<Longrightarrow> n0 \<le> fst st \<Longrightarrow>
   (\<forall>(a, c) \<in> set (snd st). ids c \<subseteq> {n0..<fst st}) \<Longrightarrow>
   fst st \<le> fst st' \<and> ids y \<subseteq> {n0..<fst st'} \<and>
   (\<forall>(a, c) \<in> set (snd st'). ids c \<subseteq> {n0..<fst st'})"
  "deepcopy_list vs st = (ys, st') \<Longrightarrow> n0 \<le> fst st \<Longrightarrow>
   (\<forall>(a, c) \<in> set (snd st). ids c \<subseteq> {n0..<fst st}) \<Longrightarrow>
   fst st \<le> fst st' \<and> ids_list ys \<subseteq> {n0..<fst st'} \<and>
   (\<forall>(a, c) \<in> set (snd st'). ids c \<subseteq> {n0..<fst st'})"
  "deepcopy_items kvs st = (kys, st') \<Longrightarrow> n0 \<le> fst st \<Longrightarrow>
   (\<forall>(a, c) \<in> set (snd st). ids c \<subseteq> {n0..<fst st}) \<Longrightarrow>
   fst st \<le> fst st' \<and> ids_items kys \<subseteq> {n0..<fst st'} \<and>
   (\<forall>(a, c) \<in> set (snd st'). ids c \<subseteq> {n0..<fst st'})"
proof (induction v st and vs st and kvs st arbitrary: y st' and ys st' and kys st'
    rule: deepcopy_memo_deepcopy_list_deepcopy_items.induct)
  case (1 a vs n memo)
  show ?case
  proof (cases "map_of memo a")
    case (Some c)
    with "1.prems" have "(a, c) \<in> set memo" "y = c" "st' = (n, memo)"
      by (auto dest: map_of_SomeD)
    with "1.prems" show ?thesis by fastforce
  next
    case None
    obtain vs' n' memo' where copy: "deepcopy_list vs (Suc n, memo) = (vs', (n', memo'))"
      by (metis prod.collapse)
    with None "1.prems" have y: "y = PList n vs'" and st': "st' = (n', (a, PList n vs') # memo')"
      by auto
    have "n0 \<le> fst (Suc n, memo)"
      and "\<forall>(a, c) \<in> set (snd (Suc n, memo)). ids c \<subseteq> {n0..<fst (Suc n, memo)}"
      using "1.prems" by fastforce+
    from "1.IH" [OF None copy this]
    have "Suc n \<le> n'" "ids_list vs' \<subseteq> {n0..<n'}" "\<forall>(a, c) \<in> set memo'. ids c \<subseteq> {n0..<n'}"
      by auto
    with y st' "1.prems" show ?thesis by auto
  qed
next
  case (2 a kvs n memo)
  show ?case
  proof (cases "map_of memo a")
    case (Some c)
    with "2.prems" have "(a, c) \<in> set memo" "y = c" "st' = (n, memo)"
      by (auto dest: map_of_SomeD)
    with "2.prems" show ?thesis by fastforce
  next
    case None
    obtain kvs' n' memo' where copy: "deepcopy_items kvs (Suc n, memo) = (kvs', (n', memo'))"
      by (metis prod.collapse)
    with None "2.prems" have y: "y = PDict n kvs'" and st': "st' = (n', (a, PDict n kvs') # memo')"
      by auto
    have "n0 \<le> fst (Suc n, memo)"
      and "\<forall>(a, c) \<in> set (snd (Suc n, memo)). ids c \<subseteq> {n0..<fst (Suc n, memo)}"
      using "2.prems" by fastforce+
    from "2.IH" [OF None copy this]
    have "Suc n \<le> n'" "ids_items kvs' \<subseteq> {n0..<n'}" "\<forall>(a, c) \<in> set memo'. ids c \<subseteq> {n0..<n'}"
      by auto
    with y st' "2.prems" show ?thesis by auto
  qed
next
  case (5 v vs st)
  obtain v' st1 where head: "deepcopy_memo v st = (v', st1)" by (metis prod.collapse)
  obtain vs' st2 where tail: "deepcopy_list vs st1 = (vs', st2)" by (metis prod.collapse)
  from head tail "5.prems" have res: "ys = v' # vs'" "st' = st2" by auto
  from "5.IH"(1) [OF head "5.prems"(2,3)]
  have h: "fst st \<le> fst st1" "ids v' \<subseteq> {n0..<fst st1}"
    "\<forall>(a, c) \<in> set (snd st1). ids c \<subseteq> {n0..<fst st1}" by auto
  from h(1) "5.prems"(2) have "n0 \<le> fst st1" by simp
  from "5.IH"(2) [OF refl head [symmetric] tail this h(3)]
  have t: "fst st1 \<le> fst st2" "ids_list vs' \<subseteq> {n0..<fst st2}"
    "\<forall>(a, c) \<in> set (snd st2). ids c \<subseteq> {n0..<fst st2}" by auto
  from h t res show ?case by fastforce
next
  case (7 k v kvs st)
  obtain v' st1 where head: "deepcopy_memo v st = (v', st1)" by (metis prod.collapse)
  obtain kvs' st2 where tail: "deepcopy_items kvs st1 = (kvs', st2)" by (metis prod.collapse)
  from head tail "7.prems" have res: "kys = (k, v') # kvs'" "st' = st2" by auto
  from "7.IH"(1) [OF head "7.prems"(2,3)]
  have h: "fst st \<le> fst st1" "ids v' \<subseteq> {n0..<fst st1}"
    "\<forall>(a, c) \<in> set (snd st1). ids c \<subseteq> {n0..<fst st1}" by auto
  from h(1) "7.prems"(2) have "n0 \<le> fst st1" by simp
  from "7.IH"(2) [OF refl head [symmetric] tail this h(3)]
  have t: "fst st1 \<le> fst st2" "ids_items kvs' \<subseteq> {n0..<fst st2}"
    "\<forall>(a, c) \<in> set (snd st2). ids c \<subseteq> {n0..<fst st2}" by auto
  from h t res show ?case by fastforce
qed auto


text \<open>The copies have the content of the originals: \<open>E\<close> gives the content that each
  identity stands for.\<close>

lemma deepcopy_memo_content:
  "deepcopy_memo v st = (y, st') \<Longrightarrow>
   (\<forall>(a, x) \<in> set (objects v). erase x = E a) \<Longrightarrow>
   (\<forall>(a, c) \<in> set (snd st). erase c = E a) \<Longrightarrow>
   erase y = erase v \<and> (\<forall>(a, c) \<in> set (snd st'). erase c = E a)"
  "deepcopy_list vs st = (ys, st') \<Longrightarrow>
   (\<forall>(a, x) \<in> set (objects_list vs). erase x = E a) \<Longrightarrow>
   (\<forall>(a, c) \<in> set (snd st). erase c = E a) \<Longrightarrow>
   erase_list ys = erase_list vs \<and> (\<forall>(a, c) \<in> set (snd st'). erase c = E a)"
  "deepcopy_items kvs st = (kys, st') \<Longrightarrow>
   (\<forall>(a, x) \<in> set (objects_items kvs). erase x = E a) \<Longrightarrow>
   (\<forall>(a, c) \<in> set (snd st). erase c = E a) \<Longrightarrow>
   erase_items kys = erase_items kvs \<and> (\<forall>(a, c) \<in> set (snd st'). erase c = E a)"
proof (induction v st and vs st and kvs st arbitrary: y st' and ys st' and kys st'
    rule: deepcopy_memo_deepcopy_list_deepcopy_items.induct)
  case (1 a vs n memo)
  from "1.prems"(2) have here: "erase (PList a vs) = E a" by simp
  show ?case
  proof (cases "map_of memo a")
    case (Some c)
    with "1.prems" have "(a, c) \<in> set memo" "y = c" "st' = (n, memo)"
      by (auto dest: map_of_SomeD)
    with "1.prems"(3) here show ?thesis by fastforce
  next
    case None
    obtain vs' n' memo' where copy: "deepcopy_list vs (Suc n, memo) = (vs', (n', memo'))"
      by (metis prod.collapse)
    with None "1.prems" have y: "y = PList n vs'" and st': "st' = (n', (a, PList n vs') # memo')"
      by auto
    have "\<forall>(a, x) \<in> set (objects_list vs). erase x = E a"
      and "\<forall>(a, c) \<in> set (snd (Suc n, memo)). erase c = E a"
      using "1.prems" by auto
    from "1.IH" [OF None copy this]
    have "erase_list vs' = erase_list vs" "\<forall>(a, c) \<in> set memo'. erase c = E a"
      by auto
    with y st' here show ?thesis by auto
  qed
next
  case (2 a kvs n memo)
  from "2.prems"(2) have here: "erase (PDict a kvs) = E a" by simp
  show ?case
  proof (cases "map_of memo a")
    case (Some c)
    with "2.prems" have "(a, c) \<in> set memo" "y = c" "st' = (n, memo)"
      by (auto dest: map_of_SomeD)
    with "2.prems"(3) here show ?thesis by fastforce
  next
    case None
    obtain kvs' n' memo' where copy: "deepcopy_items kvs (Suc n, memo) = (kvs', (n', memo'))"
      by (metis prod.collapse)
    with None "2.prems" have y: "y = PDict n kvs'" and st': "st' = (n', (a, PDict n kvs') # memo')"
      by auto
    have "\<forall>(a, x) \<in> set (objects_items kvs). erase x = E a"
      and "\<forall>(a, c) \<in> set (snd (Suc n, memo)). erase c = E a"
      using "2.prems" by auto
    from "2.IH" [OF None copy this]
    have "erase_items kvs' = erase_items kvs" "\<forall>(a, c) \<in> set memo'. erase c = E a"
      by auto
    with y st' here show ?thesis by auto
  qed
next
  case (5 v vs st)
  obtain v' st1 where head: "deepcopy_memo v st = (v', st1)" by (metis prod.collapse)
  obtain vs' st2 where tail: "deepcopy_list vs st1 = (vs', st2)" by (metis prod.collapse)
  from head tail "5.prems" have res: "ys = v' # vs'" "st' = st2" by auto
  have objs: "\<forall>(a, x) \<in> set (objects v). erase x = E a"
    "\<forall>(a, x) \<in> set (objects_list vs). erase x = E a"
    using "5.prems"(2) by auto
  from "5.IH"(1) [OF head objs(1) "5.prems"(3)]
  have h: "erase v' = erase v" "\<forall>(a, c) \<in> set (snd st1). erase c = E a" by auto
  from "5.IH"(2) [OF refl head [symmetric] tail objs(2) h(2)]
  have t: "erase_list vs' = erase_list vs" "\<forall>(a, c) \<in> set (snd st2). erase c = E a" by auto
  from h t res show ?case by simp
next
  case (7 k v kvs st)
  obtain v' st1 where head: "deepcopy_memo v st = (v', st1)" by (metis prod.collapse)
  obtain kvs' st2 where tail: "deepcopy_items kvs st1 = (kvs', st2)" by (metis prod.collapse)
  from head tail "7.prems" have res: "kys = (k, v') # kvs'" "st' = st2" by auto
  have objs: "\<forall>(a, x) \<in> set (objects v). erase x = E a"
    "\<forall>(a, x) \<in> set (objects_items kvs). erase x = E a"
    using "7.prems"(2) by auto
  from "7.IH"(1) [OF head objs(1) "7.prems"(3)]
  have h: "erase v' = erase v" "\<forall>(a, c) \<in> set (snd st1). erase c = E a" by auto
  from "7.IH"(2) [OF refl head [symmetric] tail objs(2) h(2)]
  have t: "erase_items kvs' = erase_items kvs" "\<forall>(a, c) \<in> set (snd st2). erase c = E a" by auto
  from h t res show ?case by simp
qed auto

lemma coherent_content:
  assumes "coherent v"
  shows "\<forall>(a, x) \<in> set (objects v). erase x = (case map_of (objects v) a of
           None \<Rightarrow> JNull | Some x0 \<Rightarrow> erase x0)"
proof (clarify)
  fix a x assume ax: "(a, x) \<in> set (objects v)"
  then obtain x0 where x0: "map_of (objects v) a = Some x0"
    by (metis weak_map_of_SomeI)
  then have "(a, x0) \<in> set (objects v)" by (rule map_of_SomeD)
  with assms ax have "erase x0 = erase x"
    unfolding coherent_def list_all_iff by fastforce
  with x0 show "erase x = (case map_of (objects v) a of None \<Rightarrow> JNull | Some x0 \<Rightarrow> erase x0)"
    by simp
qed

lemma deepcopy_result:
  assumes "coherent x"
  shows "erase (fst (deepcopy x n)) = erase x \<and>
         ids (fst (deepcopy x n)) \<subseteq> {n..<snd (deepcopy x n)} \<and>
         n \<le> snd (deepcopy x n)"
proof -
  obtain y n' memo where run: "deepcopy_memo x (n, []) = (y, (n', memo))"
    by (metis prod.collapse)
  then have res: "deepcopy x n = (y, n')"
    by (simp add: deepcopy_def)
  from deepcopy_memo_content(1) [OF run coherent_content [OF assms]]
  have "erase y = erase x" by simp
  moreover from deepcopy_memo_fresh(1) [OF run, of n]
  have "n \<le> n'" "ids y \<subseteq> {n..<n'}" by auto
  ultimately show ?thesis by (simp add: res)
qed


subsection \<open>Loading when no inventory exists\<close>

text \<open>
  Claim C2. Let no candidate of the search list be a regular file, and let the default
  skeleton be a coherent value made of objects that exist already. Then \<open>load_inventory\<close>
  returns a value with the same content as the default, and the files are as they were:
  no archive is created. The objects of the returned value are new, none is an object of
  the default, so no in-place mutation of an object of the returned value changes the
  default.
\<close>

theorem load_inventory_default_copy:
  assumes "\<forall>c \<in> set (get_search_paths e preferred_path (Some INVENTORY_FILENAME)).
      \<not> os_path_isfile (files w) c"
    and "coherent default_inv"
    and "ids default_inv \<subseteq> {..<next_id w}"
  shows "\<exists>v w'. load_inventory e w preferred_path default_inv = Inr (v, w') \<and>
           erase v = erase default_inv \<and>
           files w' = files w \<and>
           ids v \<inter> ids default_inv = {} \<and>
           (\<forall>a \<in> ids v. \<forall>new. mutate a new default_inv = default_inv)"
proof -
  let ?v = "fst (deepcopy default_inv (next_id w))"
  let ?n = "snd (deepcopy default_inv (next_id w))"
  from assms(1)
  have "first_file (files w) (get_search_paths e preferred_path (Some INVENTORY_FILENAME)) = None"
    by (simp add: first_file_None_iff)
  then have "load_from_json e w INVENTORY_FILENAME preferred_path True =
      Inr ((PBool False, None), w)"
    by (simp add: load_from_json_def file_find_def)
  then have run: "load_inventory e w preferred_path default_inv = Inr (?v, w\<lparr>next_id := ?n\<rparr>)"
    by (simp add: load_inventory_def split_beta)
  from deepcopy_result [OF assms(2), of "next_id w"]
  have content: "erase ?v = erase default_inv" and new: "ids ?v \<subseteq> {next_id w..<?n}"
    by simp_all
  from new assms(3) have apart: "ids ?v \<inter> ids default_inv = {}"
    by fastforce
  then have "\<forall>a \<in> ids ?v. \<forall>new. mutate a new default_inv = default_inv"
    by (auto intro: mutate_elsewhere(1))
  with run content apart show ?thesis
    by simp
qed

theorem load_inventory_default_copy_witness:
  "load_inventory example_env \<lparr>files = fs_fresh, next_id = 3\<rparr> (Some ''/opt/osa'')
     (PDict 0 [(''all'', PDict 1 [(''hosts'', PDict 2 [])])]) =
     Inr (PDict 3 [(''all'', PDict 4 [(''hosts'', PDict 5 [])])],
          \<lparr>files = fs_fresh, next_id = 6\<rparr>) \<and>
   mutate 4 (PDict 4 [(''hosts'', PDict 5 []), (''children'', PNone)])
     (PDict 0 [(''all'', PDict 1 [(''hosts'', PDict 2 [])])]) =
     PDict 0 [(''all'', PDict 1 [(''hosts'', PDict 2 [])])]"
proof -
  let ?w = "\<lparr>files = fs_fresh, next_id = 3\<rparr>"
  let ?d = "PDict 0 [(''all'', PDict 1 [(''hosts'', PDict 2 [])])]"
  have paths: "get_search_paths example_env (Some ''/opt/osa'') (Some INVENTORY_FILENAME) =
      [''/opt/osa/openstack_inventory.json'', ''/etc/openstack_deploy/openstack_inventory.json'']"
    by (simp add: get_search_paths_def os_path_join_def os_path_expanduser_def
        INVENTORY_FILENAME_def)
  have absent: "\<forall>c \<in> set (get_search_paths example_env (Some ''/opt/osa'')
      (Some INVENTORY_FILENAME)). \<not> os_path_isfile (files ?w) c"
    unfolding paths by (simp add: os_path_isfile_def fs_fresh_def)
  have coh: "coherent ?d"
    by (simp add: coherent_def)
  have old: "ids ?d \<subseteq> {..<next_id ?w}"
    by simp
  have copy: "deepcopy ?d 3 = (PDict 3 [(''all'', PDict 4 [(''hosts'', PDict 5 [])])], 6)"
    by (simp add: deepcopy_def eval_nat_numeral)
  from load_inventory_default_copy [OF absent coh old] obtain v w' where
    run: "load_inventory example_env ?w (Some ''/opt/osa'') ?d = Inr (v, w')" and
    files: "files w' = files ?w" and
    safe: "\<forall>a \<in> ids v. \<forall>new. mutate a new ?d = ?d"
    by blast
  from absent
  have "first_file (files ?w) (get_search_paths example_env (Some ''/opt/osa'')
      (Some INVENTORY_FILENAME)) = None"
    by (simp add: first_file_None_iff)
  then have "load_from_json example_env ?w INVENTORY_FILENAME (Some ''/opt/osa'') True =
      Inr ((PBool False, None), ?w)"
    by (simp add: load_from_json_def file_find_def)
  then have result: "load_inventory example_env ?w (Some ''/opt/osa'') ?d =
      Inr (PDict 3 [(''all'', PDict 4 [(''hosts'', PDict 5 [])])],
           \<lparr>files = fs_fresh, next_id = 6\<rparr>)"
    using copy by (simp add: load_inventory_def)
  with run have "v = PDict 3 [(''all'', PDict 4 [(''hosts'', PDict 5 [])])]"
    by simp
  then have "4 \<in> ids v" by simp
  with safe have "mutate 4 (PDict 4 [(''hosts'', PDict 5 []), (''children'', PNone)]) ?d = ?d"
    by blast
  with result show ?thesis by simp
qed

end
